theory Spec2Isabelle
  imports Main "HOL-Library.AList"
begin

section \<open>Type handles of the compiler front end\<close>

text \<open>
  The generator reads TypeScript types through handles of the ts-morph library
  (\<^verbatim>\<open>type: any\<close> in \<^verbatim>\<open>src/index.ts\<close>).  A handle is modelled by the answers it
  gives to exactly the queries the generator makes.  \<^verbatim>\<open>getArrayElementType()\<close> may
  answer \<^verbatim>\<open>undefined\<close> (\<open>None\<close>);  \<^verbatim>\<open>getLiteralValue()\<close> answers a string, a
  number or \<^verbatim>\<open>undefined\<close>.  For a property symbol,
  \<^verbatim>\<open>prop.getTypeAtLocation(prop.getValueDeclaration())\<close> is one query whose answer is
  a handle, or \<open>None\<close> when the symbol has no value declaration and the call throws.
  Handles are finite trees, hence acyclic.
\<close>

datatype literal = LitString string | LitNumber int | LitUndefined

datatype ts_type = Type
    (isArray: bool) (getArrayElementType: "ts_type option")
    (isEnum: bool) (getUnionTypes: "ts_type list") (getLiteralValue: literal)
    (isObject: bool) (getProperties: "ts_symbol list")
    (isNumberLiteral: bool) (isNumber: bool)
    (isStringLiteral: bool) (isString: bool)
    (isBooleanLiteral: bool) (isBoolean: bool)
    (isNull: bool) (isUndefined: bool)
and ts_symbol = Symbol (getName: string) (getTypeAtLocation: "ts_type option")

section \<open>Schema objects\<close>

text \<open>
  A \<^verbatim>\<open>SchemaObject\<close> is a JSON object with optional keys; a key that is absent is
  \<open>None\<close>.  \<^verbatim>\<open>{type: 'object'}\<close> has \<open>schema_properties = None\<close>, whereas
  \<^verbatim>\<open>{type: 'object', properties: {}}\<close> has \<open>Some []\<close>.  Objects used as dictionaries
  are association lists read with \<open>map_of\<close> and written with \<open>AList.update\<close>; the
  order of a list carries no meaning, and keys are ordinary own keys (none is
  \<^verbatim>\<open>__proto__\<close> or another member of \<^verbatim>\<open>Object.prototype\<close>).  JavaScript numbers
  are represented by integers.
\<close>

datatype schema = Schema
    (schema_type: "string option")
    (schema_items: "schema option")
    (schema_enum: "literal list option")
    (schema_properties: "(string \<times> schema) list option")
    (schema_minimum: "int option") (schema_maximum: "int option")
    (schema_format: "string option") (schema_pattern: "string option")

datatype error = Error string | TypeError

definition type_only :: "string \<Rightarrow> schema" where
  "type_only ty = Schema (Some ty) None None None None None None None"

definition array_of :: "schema \<Rightarrow> schema" where
  "array_of s = Schema (Some ''array'') (Some s) None None None None None None"

definition enum_of :: "literal list \<Rightarrow> schema" where
  "enum_of vs = Schema (Some ''string'') None (Some vs) None None None None None"

definition object_of :: "(string \<times> schema) list \<Rightarrow> schema" where
  "object_of ps = Schema (Some ''object'') None None (Some ps) None None None None"

definition empty_schema :: schema where
  "empty_schema = Schema None None None None None None None None"

section \<open>Schema inference\<close>

definition getTypeString :: "ts_type \<Rightarrow> string" where
  "getTypeString t =
     (if isNumberLiteral t \<or> isNumber t then ''number''
      else if isStringLiteral t \<or> isString t then ''string''
      else if isBooleanLiteral t \<or> isBoolean t then ''boolean''
      else if isArray t then ''array''
      else if isObject t then ''object''
      else if isNull t \<or> isUndefined t then ''null''
      else ''string'')"

text \<open>The body of the callback run for each property, once \<open>propType\<close> is known.\<close>

definition propSchema :: "ts_type \<Rightarrow> schema" where
  "propSchema propType =
     (if isEnum propType
      then enum_of (map getLiteralValue (getUnionTypes propType))
      else type_only (getTypeString propType))"

text \<open>The \<^verbatim>\<open>forEach\<close> over \<^verbatim>\<open>type.getProperties()\<close>, filling \<open>properties\<close>.\<close>

fun forEachProperty ::
  "ts_symbol list \<Rightarrow> (string \<times> schema) list \<Rightarrow> error + (string \<times> schema) list" where
  "forEachProperty [] properties = Inr properties"
| "forEachProperty (prop # rest) properties =
     (case getTypeAtLocation prop of
        None \<Rightarrow> Inl TypeError
      | Some propType \<Rightarrow>
          forEachProperty rest (AList.update (getName prop) (propSchema propType) properties))"

function getSchemaForType :: "ts_type \<Rightarrow> error + schema" where
  "getSchemaForType t =
     (if isArray t then
        (case getArrayElementType t of
           None \<Rightarrow> Inl TypeError
         | Some elementType \<Rightarrow>
             (case getSchemaForType elementType of
                Inl e \<Rightarrow> Inl e
              | Inr items \<Rightarrow> Inr (array_of items)))
      else if isEnum t then
        Inr (enum_of (map getLiteralValue (getUnionTypes t)))
      else if isObject t then
        (case forEachProperty (getProperties t) [] of
           Inl e \<Rightarrow> Inl e
         | Inr properties \<Rightarrow> Inr (object_of properties))
      else Inr (type_only (getTypeString t)))"
  by pat_completeness auto
termination
  by (relation "measure size") (auto, case_tac t, auto)

declare getSchemaForType.simps [simp del]

section \<open>Declaration sources and the generator\<close>

text \<open>
  \<^verbatim>\<open>sourceFile.getTypeAlias(typeName)\<close> either throws, answers \<^verbatim>\<open>undefined\<close>, or
  answers a declaration, of which the generator only reads \<^verbatim>\<open>getType()\<close>.  A source
  file is the function from type names to these outcomes.
\<close>

datatype alias_lookup = Throws | Undefined | TypeAlias ts_type

type_synonym source_file = "string \<Rightarrow> alias_lookup"

text \<open>
  The part of the generator's state that \<^verbatim>\<open>addRoute\<close> and \<^verbatim>\<open>extractTypeSchema\<close>
  read and write: \<^verbatim>\<open>spec.paths\<close>, \<^verbatim>\<open>spec.components.schemas\<close> (\<open>None\<close> when
  \<^verbatim>\<open>spec.components?.schemas\<close> is absent) and the project's source files.
\<close>

record parameter_object =
  name :: string
  location :: string
  required :: bool
  param_schema :: schema
  param_description :: "string option"

record header_object =
  hdr_description :: "string option"
  hdr_schema :: schema
  hdr_required :: bool

record response_object =
  ro_description :: string
  content_schema :: schema
  ro_headers :: "(string \<times> header_object) list option"

record operation_object =
  op_description :: string
  op_responses :: "(int \<times> response_object) list"
  op_parameters :: "parameter_object list option"
  op_security :: "(string \<times> string list) list option"
  op_requestBody :: "schema option"

datatype http_method = Get | Post | Put | Delete | Patch

record generator =
  paths :: "(string \<times> (http_method \<times> operation_object) list) list"
  schemas :: "(string \<times> schema) list option"
  project :: "source_file list"

text \<open>The \<^verbatim>\<open>for\<close> loop of \<^verbatim>\<open>extractTypeSchema\<close>; \<open>None\<close> is a falsy \<open>typeAlias\<close>.\<close>

fun findTypeAlias :: "source_file list \<Rightarrow> string \<Rightarrow> ts_type option" where
  "findTypeAlias [] typeName = None"
| "findTypeAlias (sourceFile # rest) typeName =
     (case sourceFile typeName of
        Throws \<Rightarrow> findTypeAlias rest typeName
      | Undefined \<Rightarrow> findTypeAlias rest typeName
      | TypeAlias tsType \<Rightarrow> Some tsType)"

definition notFoundMessage :: "string \<Rightarrow> string" where
  "notFoundMessage typeName =
     ''Type '' @ [CHR 0x27] @ typeName @ [CHR 0x27] @ '' not found in any source files''"

definition registerSchema :: "string \<Rightarrow> schema \<Rightarrow> generator \<Rightarrow> generator" where
  "registerSchema typeName s g =
     (case schemas g of
        None \<Rightarrow> g
      | Some reg \<Rightarrow> g\<lparr>schemas := Some (AList.update typeName s reg)\<rparr>)"

definition extractTypeSchema :: "string \<Rightarrow> generator \<Rightarrow> (error + schema) \<times> generator" where
  "extractTypeSchema typeName g =
     (case findTypeAlias (project g) typeName of
        None \<Rightarrow> (Inl (Error (notFoundMessage typeName)), g)
      | Some tsType \<Rightarrow>
          (case getSchemaForType tsType of
             Inl e \<Rightarrow> (Inl e, g)
           | Inr s \<Rightarrow>
               (let g' = registerSchema typeName s g in
                if isArray tsType then
                  (case getArrayElementType tsType of
                     None \<Rightarrow> (Inl TypeError, g')
                   | Some elementType \<Rightarrow>
                       (case getSchemaForType elementType of
                          Inl e \<Rightarrow> (Inl e, g')
                        | Inr items \<Rightarrow> (Inr (array_of items), g')))
                else (Inr s, g'))))"

section \<open>Routes\<close>

record response_definition =
  statusCode :: int
  response_description :: string
  response_type :: "string option"

record path_parameter_definition =
  parameter_description :: "string option"

record query_parameter =
  query_required :: bool
  query_schema :: schema
  query_description :: "string option"

record header_definition =
  header_name :: string
  header_required :: "bool option"
  header_schema :: schema
  header_description :: "string option"

record route_headers =
  request :: "header_definition list option"
  response :: "header_definition list option"

record route_definition =
  path :: string
  route_method :: http_method
  description :: "string option"
  requestType :: "string option"
  parameters :: "(string \<times> path_parameter_definition) list option"
  queryParameters :: "(string \<times> query_parameter) list option"
  headers :: "route_headers option"
  security :: "string list option"
  responses :: "response_definition list"

text \<open>
  \<^verbatim>\<open>path.match(/{([^}]+)}/g)\<close>: the matches from left to right, without overlap.  At
  an opening brace the greedy class takes every character up to the next closing brace;
  the match succeeds when that run is not empty and a closing brace follows it, and the
  search goes on behind that brace.  Otherwise the search goes on at the next character.
\<close>

function pathMatch :: "string \<Rightarrow> string list" where
  "pathMatch [] = []"
| "pathMatch (c # cs) =
     (if c = CHR ''{'' then
        (let inner = takeWhile (\<lambda>x. x \<noteq> CHR ''}'') cs;
             rest = dropWhile (\<lambda>x. x \<noteq> CHR ''}'') cs
         in if inner \<noteq> [] \<and> rest \<noteq> []
            then (c # inner @ [hd rest]) # pathMatch (tl rest)
            else pathMatch cs)
      else pathMatch cs)"
  by pat_completeness auto
termination
proof (relation "measure length")
  fix c :: char and cs inner rest :: string
  assume "rest = dropWhile (\<lambda>x. x \<noteq> CHR ''}'') cs"
  then have "length rest \<le> length cs"
    by (simp add: length_dropWhile_le)
  then have "length (tl rest) < length (c # cs)"
    by simp
  then show "(tl rest, c # cs) \<in> measure length"
    by simp
qed simp_all

declare pathMatch.simps [simp del]

text \<open>\<^verbatim>\<open>match.slice(1, -1)\<close>: without the first and the last character.\<close>

definition slice_1_m1 :: "string \<Rightarrow> string" where
  "slice_1_m1 s = butlast (tl s)"

definition extractPathParameters :: "string \<Rightarrow> string list" where
  "extractPathParameters p =
     (let matches = pathMatch p in
      if matches = [] then [] else map slice_1_m1 matches)"

text \<open>JavaScript truthiness of an optional string: present and not empty.\<close>

fun truthy :: "string option \<Rightarrow> string option" where
  "truthy None = None"
| "truthy (Some s) = (if s = [] then None else Some s)"

text \<open>
  The object pushed for a placeholder: \<^verbatim>\<open>route.parameters?.[paramName]?.description\<close>
  or, when that is falsy, the default text.
\<close>

definition pathParameter :: "route_definition \<Rightarrow> string \<Rightarrow> parameter_object" where
  "pathParameter route paramName =
     \<lparr>name = paramName,
      location = ''path'',
      required = True,
      param_schema = type_only ''string'',
      param_description =
        (case truthy (Option.bind (Option.bind (parameters route) (\<lambda>ps. map_of ps paramName))
                        parameter_description) of
           Some d \<Rightarrow> Some d
         | None \<Rightarrow> Some (paramName @ '' parameter''))\<rparr>"

definition queryParameter :: "string \<times> query_parameter \<Rightarrow> parameter_object" where
  "queryParameter entry =
     \<lparr>name = fst entry,
      location = ''query'',
      required = query_required (snd entry),
      param_schema = query_schema (snd entry),
      param_description = query_description (snd entry)\<rparr>"

definition headerParameter :: "header_definition \<Rightarrow> parameter_object" where
  "headerParameter header =
     \<lparr>name = header_name header,
      location = ''header'',
      required = (case header_required header of Some b \<Rightarrow> b | None \<Rightarrow> False),
      param_schema = header_schema header,
      param_description = header_description header\<rparr>"

definition routeParameters :: "route_definition \<Rightarrow> parameter_object list" where
  "routeParameters route =
     map (pathParameter route) (extractPathParameters (path route))
     @ (case queryParameters route of None \<Rightarrow> [] | Some qs \<Rightarrow> map queryParameter qs)
     @ (case Option.bind (headers route) request of
          None \<Rightarrow> []
        | Some hs \<Rightarrow> map headerParameter hs)"

definition responseHeaders ::
  "route_definition \<Rightarrow> (string \<times> header_object) list option" where
  "responseHeaders route =
     (case Option.bind (headers route) response of
        None \<Rightarrow> None
      | Some hs \<Rightarrow>
          Some (foldl (\<lambda>acc header.
                   AList.update (header_name header)
                     \<lparr>hdr_description = header_description header,
                      hdr_schema = header_schema header,
                      hdr_required =
                        (case header_required header of Some b \<Rightarrow> b | None \<Rightarrow> False)\<rparr>
                     acc) [] hs))"

text \<open>
  The \<^verbatim>\<open>forEach\<close> over \<^verbatim>\<open>route.responses\<close>.  An exception of
  \<^verbatim>\<open>extractTypeSchema\<close> leaves the loop and \<^verbatim>\<open>addRoute\<close>; the registry keeps
  what earlier calls wrote.  The key \<^verbatim>\<open>statusCode.toString()\<close> is the number.
\<close>

fun forEachResponse ::
  "route_definition \<Rightarrow> response_definition list \<Rightarrow> (int \<times> response_object) list \<Rightarrow>
   generator \<Rightarrow> (error + (int \<times> response_object) list) \<times> generator" where
  "forEachResponse route [] acc g = (Inr acc, g)"
| "forEachResponse route (r # rest) acc g =
     (case (case truthy (response_type r) of
              None \<Rightarrow> (Inr empty_schema, g)
            | Some ty \<Rightarrow> extractTypeSchema ty g) of
        (Inl e, g') \<Rightarrow> (Inl e, g')
      | (Inr s, g') \<Rightarrow>
          forEachResponse route rest
            (AList.update (statusCode r)
               \<lparr>ro_description = response_description r,
                content_schema = s,
                ro_headers = responseHeaders route\<rparr> acc) g')"

definition addRoute :: "route_definition \<Rightarrow> generator \<Rightarrow> (error + unit) \<times> generator" where
  "addRoute route g =
     (let pathItem = (case map_of (paths g) (path route) of None \<Rightarrow> [] | Some item \<Rightarrow> item);
          g0 = (case map_of (paths g) (path route) of
                  None \<Rightarrow> g\<lparr>paths := AList.update (path route) [] (paths g)\<rparr>
                | Some item \<Rightarrow> g);
          ps = routeParameters route;
          operation =
            \<lparr>op_description = (case truthy (description route) of None \<Rightarrow> [] | Some d \<Rightarrow> d),
             op_responses = [],
             op_parameters = (if ps \<noteq> [] then Some ps else None),
             op_security = map_option (map (\<lambda>scheme. (scheme, []))) (security route),
             op_requestBody = None\<rparr>
      in case (case truthy (requestType route) of
                 None \<Rightarrow> (Inr None, g0)
               | Some ty \<Rightarrow>
                   (case extractTypeSchema ty g0 of
                      (Inl e, g1) \<Rightarrow> (Inl e, g1)
                    | (Inr s, g1) \<Rightarrow> (Inr (Some s), g1))) of
           (Inl e, g1) \<Rightarrow> (Inl e, g1)
         | (Inr body, g1) \<Rightarrow>
             (case forEachResponse route (responses route) [] g1 of
                (Inl e, g2) \<Rightarrow> (Inl e, g2)
              | (Inr rs, g2) \<Rightarrow>
                  (Inr (),
                   g2\<lparr>paths :=
                        AList.update (path route)
                          (AList.update (route_method route)
                             (operation\<lparr>op_requestBody := body, op_responses := rs\<rparr>)
                             pathItem)
                          (paths g2)\<rparr>)))"

fun addRoutes :: "route_definition list \<Rightarrow> generator \<Rightarrow> (error + unit) \<times> generator" where
  "addRoutes [] g = (Inr (), g)"
| "addRoutes (route # rest) g =
     (case addRoute route g of
        (Inl e, g') \<Rightarrow> (Inl e, g')
      | (Inr u, g') \<Rightarrow> addRoutes rest g')"

text \<open>Reading the document: a registry entry, and the operation of a path and method.\<close>

definition registryEntry :: "generator \<Rightarrow> string \<Rightarrow> schema option" where
  "registryEntry g typeName =
     (case schemas g of None \<Rightarrow> None | Some reg \<Rightarrow> map_of reg typeName)"

definition operationAt :: "generator \<Rightarrow> string \<Rightarrow> http_method \<Rightarrow> operation_object option" where
  "operationAt g p m =
     (case map_of (paths g) p of None \<Rightarrow> None | Some item \<Rightarrow> map_of item m)"

text \<open>The type names a route hands to \<^verbatim>\<open>extractTypeSchema\<close>, in the order of the calls.\<close>

definition typeReferences :: "route_definition \<Rightarrow> string list" where
  "typeReferences route =
     (case truthy (requestType route) of None \<Rightarrow> [] | Some ty \<Rightarrow> [ty])
     @ concat (map (\<lambda>r. case truthy (response_type r) of None \<Rightarrow> [] | Some ty \<Rightarrow> [ty])
                 (responses route))"

section \<open>Well-formed handles\<close>

text \<open>
  \<open>wellFormed\<close> holds of the handles on which no accessor fails: a handle that answers
  \<^verbatim>\<open>isArray()\<close> has an element type, for which the same holds, and each of its
  property symbols has a type at its declaration.  Valid types can lie outside: the
  property symbols of a mapped type such as \<^verbatim>\<open>Record<'min' | 'max', number>\<close> have no
  value declaration.
\<close>

function wellFormed :: "ts_type \<Rightarrow> bool" where
  "wellFormed t =
     ((if isArray t
       then (case getArrayElementType t of None \<Rightarrow> False | Some e \<Rightarrow> wellFormed e)
       else True)
      \<and> list_all (\<lambda>p. getTypeAtLocation p \<noteq> None) (getProperties t))"
  by pat_completeness auto
termination
  by (relation "measure size") (auto, case_tac t, auto)

declare wellFormed.simps [simp del]

text \<open>The spec's capability \<open>isPrimitive\<close>: a number, string or boolean, or a literal of one.\<close>

definition isPrimitive :: "ts_type \<Rightarrow> bool" where
  "isPrimitive t =
     (isNumberLiteral t \<or> isNumber t \<or> isStringLiteral t \<or> isString t
      \<or> isBooleanLiteral t \<or> isBoolean t)"

section \<open>Example declarations\<close>

text \<open>
  Handles as ts-morph answers for the declarations of the repository's tests:
  \<^verbatim>\<open>number\<close>, \<^verbatim>\<open>string\<close>, a string literal, the enum \<^verbatim>\<open>UserType\<close>, the objects
  \<^verbatim>\<open>Item = {id: number, name: string}\<close> and
  \<^verbatim>\<open>Account = {owner: Item, role: UserType}\<close>, and \<^verbatim>\<open>List = Item[]\<close>.
  \<open>opaqueType\<close> answers no to every predicate.
\<close>

definition opaqueType :: ts_type where
  "opaqueType = Type False None False [] LitUndefined False []
                  False False False False False False False False"

definition numberType :: ts_type where
  "numberType = Type False None False [] LitUndefined False []
                  False True False False False False False False"

definition stringType :: ts_type where
  "stringType = Type False None False [] LitUndefined False []
                  False False False True False False False False"

definition stringLiteralType :: "string \<Rightarrow> ts_type" where
  "stringLiteralType v = Type False None False [] (LitString v) False []
                           False False True False False False False False"

definition userTypeEnum :: ts_type where
  "userTypeEnum =
     Type False None True
       (map stringLiteralType [''admin'', ''user'', ''trial'', ''guest''])
       LitUndefined False [] False False False False False False False False"

definition itemType :: ts_type where
  "itemType =
     Type False None False [] LitUndefined True
       [Symbol ''id'' (Some numberType), Symbol ''name'' (Some stringType)]
       False False False False False False False False"

definition accountType :: ts_type where
  "accountType =
     Type False None False [] LitUndefined True
       [Symbol ''owner'' (Some itemType), Symbol ''role'' (Some userTypeEnum)]
       False False False False False False False False"

definition listType :: ts_type where
  "listType = Type True (Some itemType) False [] LitUndefined True []
                False False False False False False False False"

definition itemSchema :: schema where
  "itemSchema = object_of [(''id'', type_only ''number''), (''name'', type_only ''string'')]"

text \<open>A source file that declares the given aliases, and one whose lookups throw.\<close>

definition sourceOf :: "(string \<times> ts_type) list \<Rightarrow> source_file" where
  "sourceOf decls typeName =
     (case map_of decls typeName of None \<Rightarrow> Undefined | Some t \<Rightarrow> TypeAlias t)"

definition brokenSource :: source_file where
  "brokenSource typeName = Throws"

text \<open>The generator as its constructor leaves it, over the given source files.\<close>

definition newGenerator :: "source_file list \<Rightarrow> generator" where
  "newGenerator sourceFiles = \<lparr>paths = [], schemas = Some [], project = sourceFiles\<rparr>"

definition typesSource :: source_file where
  "typesSource = sourceOf [(''Item'', itemType), (''List'', listType),
                           (''UserType'', userTypeEnum), (''Account'', accountType)]"

text \<open>
  A route whose request type no source declares, and two sources that declare the
  same name \<open>T\<close> with different shapes.
\<close>

definition ghostRoute :: route_definition where
  "ghostRoute =
     \<lparr>path = ''/ghosts'', route_method = Get, description = None,
      requestType = Some ''Ghost'', parameters = None, queryParameters = None,
      headers = None, security = None,
      responses = [\<lparr>statusCode = 200, response_description = ''found'',
                    response_type = Some ''Item''\<rparr>]\<rparr>"

definition sourceA :: source_file where
  "sourceA = sourceOf [(''T'', itemType)]"

definition sourceB :: source_file where
  "sourceB = sourceOf [(''T'', numberType)]"

text \<open>
  A route with two placeholders, of which only the first has a declared description,
  a query parameter and a request header.
\<close>

definition postRoute :: route_definition where
  "postRoute =
     \<lparr>path = ''/users/{userId}/posts/{postId}'', route_method = Get,
      description = Some ''Get user post'', requestType = None,
      parameters = Some [(''userId'', \<lparr>parameter_description = Some ''The ID of the user''\<rparr>)],
      queryParameters =
        Some [(''page'',
               \<lparr>query_required = False,
                query_schema = Schema (Some ''integer'') None None None (Some 1) None None None,
                query_description = Some ''Page number''\<rparr>)],
      headers =
        Some \<lparr>request =
                 Some [\<lparr>header_name = ''X-API-Version'', header_required = Some True,
                        header_schema = type_only ''string'',
                        header_description = Some ''API Version''\<rparr>],
              response = None\<rparr>,
      security = Some [''bearerAuth''],
      responses = [\<lparr>statusCode = 200, response_description = ''Successfully retrieved post'',
                    response_type = Some ''Item''\<rparr>]\<rparr>"

text \<open>
  The handle of the alias \<^verbatim>\<open>Role = "admin" | "user" | "trial" | "guest"\<close>, a union of
  string literals that is no enum declaration, and the handle of
  \<^verbatim>\<open>Limits = Record<'min' | 'max', number>\<close>, an object type whose property symbols have
  no value declaration.
\<close>

definition roleUnion :: ts_type where
  "roleUnion =
     Type False None False
       (map stringLiteralType [''admin'', ''user'', ''trial'', ''guest''])
       LitUndefined False [] False False False False False False False False"

definition limitsType :: ts_type where
  "limitsType =
     Type False None False [] LitUndefined True
       [Symbol ''min'' None, Symbol ''max'' None]
       False False False False False False False False"

section \<open>Path templates\<close>

text \<open>
  What a placeholder of a path string is, independently of the regular expression: a
  path template is a sequence of literal text and placeholders \<^verbatim>\<open>{name}\<close>;
  \<open>render\<close> writes it as the path string.  In a proper template literal text has no
  opening brace, and a name is not empty and has no closing brace.
\<close>

datatype segment = Literal string | Placeholder string

fun render :: "segment list \<Rightarrow> string" where
  "render [] = []"
| "render (Literal s # segs) = s @ render segs"
| "render (Placeholder n # segs) = CHR ''{'' # n @ CHR ''}'' # render segs"

fun placeholderNames :: "segment list \<Rightarrow> string list" where
  "placeholderNames [] = []"
| "placeholderNames (Literal s # segs) = placeholderNames segs"
| "placeholderNames (Placeholder n # segs) = n # placeholderNames segs"

fun segmentOk :: "segment \<Rightarrow> bool" where
  "segmentOk (Literal s) = (CHR ''{'' \<notin> set s)"
| "segmentOk (Placeholder n) = (n \<noteq> [] \<and> CHR ''}'' \<notin> set n)"

definition templateOk :: "segment list \<Rightarrow> bool" where
  "templateOk segs = list_all segmentOk segs"

section \<open>Facts about the property loop\<close>

lemma forEachProperty_returns:
  "list_all (\<lambda>p. getTypeAtLocation p \<noteq> None) ps \<Longrightarrow> \<exists>r. forEachProperty ps acc = Inr r"
  by (induction ps arbitrary: acc) auto

lemma forEachProperty_other:
  "forEachProperty ps acc = Inr r \<Longrightarrow> n \<notin> getName ` set ps \<Longrightarrow> map_of r n = map_of acc n"
proof (induction ps arbitrary: acc)
  case Nil
  then show ?case by simp
next
  case (Cons p ps)
  then obtain pt where pt: "getTypeAtLocation p = Some pt"
    by (cases "getTypeAtLocation p") auto
  with Cons.prems have
    "forEachProperty ps (AList.update (getName p) (propSchema pt) acc) = Inr r"
    by simp
  with Cons.IH Cons.prems have
    "map_of r n = map_of (AList.update (getName p) (propSchema pt) acc) n"
    by simp
  with Cons.prems show ?case
    by (simp add: update_conv')
qed

lemma forEachProperty_entry:
  "forEachProperty ps acc = Inr r \<Longrightarrow> distinct (map getName ps) \<Longrightarrow> p \<in> set ps \<Longrightarrow>
   getTypeAtLocation p = Some pt \<Longrightarrow> map_of r (getName p) = Some (propSchema pt)"
proof (induction ps arbitrary: acc)
  case Nil
  then show ?case by simp
next
  case (Cons q ps)
  then obtain qt where qt: "getTypeAtLocation q = Some qt"
    by (cases "getTypeAtLocation q") auto
  with Cons.prems have run:
    "forEachProperty ps (AList.update (getName q) (propSchema qt) acc) = Inr r"
    by simp
  show ?case
  proof (cases "p = q")
    case True
    with Cons.prems have "getName p \<notin> getName ` set ps" by auto
    with run have "map_of r (getName p) = map_of (AList.update (getName q) (propSchema qt) acc) (getName p)"
      by (rule forEachProperty_other)
    with True qt Cons.prems show ?thesis
      by (simp add: update_conv')
  next
    case False
    with Cons.prems have "p \<in> set ps" "distinct (map getName ps)" by auto
    with run Cons.prems show ?thesis
      using Cons.IH by blast
  qed
qed

lemma getSchemaForType_object:
  "\<not> isArray t \<Longrightarrow> \<not> isEnum t \<Longrightarrow> isObject t \<Longrightarrow> forEachProperty (getProperties t) [] = Inr ps \<Longrightarrow>
   getSchemaForType t = Inr (object_of ps)"
  by (simp add: getSchemaForType.simps)

section \<open>Enum detection\<close>

text \<open>
  Claim C5, as stated, at the alias \<^verbatim>\<open>Role = "admin" | "user" | "trial" | "guest"\<close>:
  the type is a union of exactly these four string literals, the handle does not report
  it as an enum, and inference yields \<^verbatim>\<open>{type: 'string'}\<close> without an \<open>enum\<close> key.
\<close>

theorem literal_union_counterexample:
  "\<not> isArray roleUnion
   \<and> list_all isStringLiteral (getUnionTypes roleUnion)
   \<and> map getLiteralValue (getUnionTypes roleUnion)
       = [LitString ''admin'', LitString ''user'', LitString ''trial'', LitString ''guest'']
   \<and> getSchemaForType roleUnion
       = Inr (Schema (Some ''string'') None None None None None None None)
   \<and> getSchemaForType roleUnion
       \<noteq> Inr (Schema (Some ''string'') None
                (Some [LitString ''admin'', LitString ''user'', LitString ''trial'',
                       LitString ''guest''])
                None None None None None)"
  by code_simp

text \<open>
  Claim C5, amended.  A type that is not an array and that the handle reports as an
  enum (\<^verbatim>\<open>isEnum()\<close>, as for an enum declaration), whose union members carry the
  string literals \<open>vs\<close> in declaration order, infers to
  \<^verbatim>\<open>{type: 'string', enum: vs}\<close> with the values in that order; for the members
  \<^verbatim>\<open>admin\<close>, \<^verbatim>\<open>user\<close>, \<^verbatim>\<open>trial\<close>, \<^verbatim>\<open>guest\<close> this is the fragment with exactly
  these four values.
\<close>

theorem enum_detection:
  assumes "\<not> isArray t" and "isEnum t"
    and "map getLiteralValue (getUnionTypes t) = map LitString vs"
  shows "getSchemaForType t =
           Inr (Schema (Some ''string'') None (Some (map LitString vs)) None None None None None)"
  using assms by (simp add: getSchemaForType.simps enum_of_def)

theorem enum_detection_witness:
  "\<not> isArray userTypeEnum \<and> isEnum userTypeEnum
   \<and> map getLiteralValue (getUnionTypes userTypeEnum)
       = map LitString [''admin'', ''user'', ''trial'', ''guest'']
   \<and> getSchemaForType userTypeEnum =
       Inr (Schema (Some ''string'') None
              (Some [LitString ''admin'', LitString ''user'', LitString ''trial'', LitString ''guest''])
              None None None None None)"
proof -
  have h: "\<not> isArray userTypeEnum" "isEnum userTypeEnum"
    "map getLiteralValue (getUnionTypes userTypeEnum)
       = map LitString [''admin'', ''user'', ''trial'', ''guest'']"
    by (simp_all add: userTypeEnum_def stringLiteralType_def)
  from enum_detection [OF h] h show ?thesis by simp
qed

section \<open>The primitive default\<close>

text \<open>
  Claim C7.  A type that is no array, no enum, no object, no number, string or boolean
  (or literal of these) and neither null nor undefined infers to \<^verbatim>\<open>{type: 'string'}\<close>.
\<close>

theorem primitive_default:
  assumes "\<not> isArray t" and "\<not> isEnum t" and "\<not> isObject t"
    and "\<not> isPrimitive t" and "\<not> isNull t" and "\<not> isUndefined t"
  shows "getSchemaForType t = Inr (Schema (Some ''string'') None None None None None None None)"
  using assms
  by (simp add: getSchemaForType.simps getTypeString_def isPrimitive_def type_only_def)

theorem primitive_default_witness:
  "\<not> isArray opaqueType \<and> \<not> isEnum opaqueType \<and> \<not> isObject opaqueType
   \<and> \<not> isPrimitive opaqueType \<and> \<not> isNull opaqueType \<and> \<not> isUndefined opaqueType
   \<and> getSchemaForType opaqueType = Inr (Schema (Some ''string'') None None None None None None None)"
proof -
  have h: "\<not> isArray opaqueType" "\<not> isEnum opaqueType" "\<not> isObject opaqueType"
    "\<not> isPrimitive opaqueType" "\<not> isNull opaqueType" "\<not> isUndefined opaqueType"
    by (simp_all add: opaqueType_def isPrimitive_def)
  from primitive_default [OF h] h show ?thesis by simp
qed

section \<open>Where inference returns\<close>

lemma inference_returns:
  "wellFormed t \<Longrightarrow> \<exists>s. getSchemaForType t = Inr s"
proof (induction t rule: getSchemaForType.induct)
  case (1 t)
  show ?case
  proof (cases "isArray t")
    case True
    with "1.prems" obtain e where e: "getArrayElementType t = Some e" "wellFormed e"
      by (subst (asm) wellFormed.simps) (auto split: option.splits)
    with True "1.IH" obtain items where "getSchemaForType e = Inr items"
      by blast
    with True e show ?thesis
      by (subst getSchemaForType.simps) simp
  next
    case False
    from "1.prems" have "list_all (\<lambda>p. getTypeAtLocation p \<noteq> None) (getProperties t)"
      by (subst (asm) wellFormed.simps) simp
    then obtain ps where "forEachProperty (getProperties t) [] = Inr ps"
      using forEachProperty_returns by blast
    with False show ?thesis
      by (subst getSchemaForType.simps) simp
  qed
qed

section \<open>Inference is not total\<close>

text \<open>
  Claim C8 says that on every well-formed, acyclic handle schema inference returns a
  schema and raises no error.  At the object type
  \<^verbatim>\<open>Limits = Record<'min' | 'max', number>\<close> it does not: the property symbols have no
  value declaration, \<^verbatim>\<open>prop.getTypeAtLocation(prop.getValueDeclaration())\<close> throws a
  \<^verbatim>\<open>TypeError\<close>, and the exception leaves \<^verbatim>\<open>getSchemaForType\<close> and
  \<^verbatim>\<open>extractTypeSchema\<close>.
\<close>

theorem inference_throws_without_declaration:
  "\<not> isArray limitsType \<and> \<not> isEnum limitsType \<and> isObject limitsType
   \<and> getProperties limitsType = [Symbol ''min'' None, Symbol ''max'' None]
   \<and> getSchemaForType limitsType = Inl TypeError
   \<and> fst (extractTypeSchema ''Limits'' (newGenerator [sourceOf [(''Limits'', limitsType)]]))
       = Inl TypeError"
  by code_simp

section \<open>Facts about type resolution\<close>

lemma findTypeAlias_skip:
  "\<forall>p\<in>set pre. \<forall>t. p n \<noteq> TypeAlias t \<Longrightarrow> findTypeAlias (pre @ post) n = findTypeAlias post n"
proof (induction pre)
  case Nil
  show ?case by simp
next
  case (Cons p pre)
  then have "findTypeAlias (pre @ post) n = findTypeAlias post n" by simp
  moreover from Cons.prems have "p n = Throws \<or> p n = Undefined"
    by (cases "p n") auto
  ultimately show ?case by auto
qed

lemma findTypeAlias_none:
  assumes "\<forall>p\<in>set srcs. \<forall>t. p n \<noteq> TypeAlias t"
  shows "findTypeAlias srcs n = None"
  using findTypeAlias_skip [OF assms, of "[]"] by simp

lemma extractTypeSchema_project:
  "extractTypeSchema n g = (r, g') \<Longrightarrow> project g' = project g"
  by (auto simp: extractTypeSchema_def registerSchema_def Let_def
           split: option.splits sum.splits if_splits)

lemma extractTypeSchema_missing:
  "findTypeAlias (project g) n = None \<Longrightarrow>
   extractTypeSchema n g = (Inl (Error (notFoundMessage n)), g)"
  by (simp add: extractTypeSchema_def)

lemma forEachResponse_project:
  "forEachResponse route rs acc g = (r, g') \<Longrightarrow> project g' = project g"
proof (induction rs arbitrary: acc g)
  case Nil
  then show ?case by simp
next
  case (Cons a rs)
  show ?case
  proof (cases "truthy (response_type a)")
    case None
    with Cons.prems Cons.IH show ?thesis by (simp add: empty_schema_def)
  next
    case (Some ty)
    obtain r1 g1 where e: "extractTypeSchema ty g = (r1, g1)" by (cases "extractTypeSchema ty g")
    then have p: "project g1 = project g" by (rule extractTypeSchema_project)
    show ?thesis
    proof (cases r1)
      case (Inl err)
      with Cons.prems Some e p show ?thesis by simp
    next
      case (Inr s)
      with Cons.prems Some e have
        "forEachResponse route rs
           (AList.update (statusCode a)
              \<lparr>ro_description = response_description a, content_schema = s,
               ro_headers = responseHeaders route\<rparr> acc) g1 = (r, g')"
        by simp
      with Cons.IH p show ?thesis by metis
    qed
  qed
qed

lemma forEachResponse_missing:
  "findTypeAlias (project g) n = None \<Longrightarrow>
   n \<in> set (concat (map (\<lambda>r. case truthy (response_type r) of None \<Rightarrow> [] | Some ty \<Rightarrow> [ty]) rs)) \<Longrightarrow>
   \<exists>e. fst (forEachResponse route rs acc g) = Inl e"
proof (induction rs arbitrary: acc g)
  case Nil
  then show ?case by simp
next
  case (Cons a rs)
  show ?case
  proof (cases "truthy (response_type a)")
    case None
    with Cons.prems Cons.IH show ?thesis by simp
  next
    case (Some ty)
    obtain r1 g1 where e: "extractTypeSchema ty g = (r1, g1)" by (cases "extractTypeSchema ty g")
    then have p: "project g1 = project g" by (rule extractTypeSchema_project)
    show ?thesis
    proof (cases r1)
      case (Inl err)
      with Some e show ?thesis by simp
    next
      case (Inr s)
      have "ty \<noteq> n"
      proof
        assume "ty = n"
        with Cons.prems e have "r1 = Inl (Error (notFoundMessage n))"
          by (simp add: extractTypeSchema_missing)
        with Inr show False by simp
      qed
      with Cons.prems Some have
        "n \<in> set (concat (map (\<lambda>r. case truthy (response_type r) of None \<Rightarrow> [] | Some ty \<Rightarrow> [ty]) rs))"
        by simp
      moreover from p Cons.prems have "findTypeAlias (project g1) n = None" by simp
      ultimately have "\<exists>e. fst (forEachResponse route rs
           (AList.update (statusCode a)
              \<lparr>ro_description = response_description a, content_schema = s,
               ro_headers = responseHeaders route\<rparr> acc) g1) = Inl e"
        using Cons.IH by blast
      with Some e Inr show ?thesis by simp
    qed
  qed
qed

lemma addRoute_request_missing:
  assumes "findTypeAlias (project g) n = None" and "truthy (requestType route) = Some n"
  shows "fst (addRoute route g) = Inl (Error (notFoundMessage n))"
proof -
  define g0 where "g0 = (case map_of (paths g) (path route) of
                  None \<Rightarrow> g\<lparr>paths := AList.update (path route) [] (paths g)\<rparr>
                | Some item \<Rightarrow> g)"
  have "project g0 = project g" by (simp add: g0_def split: option.splits)
  with assms have "extractTypeSchema n g0 = (Inl (Error (notFoundMessage n)), g0)"
    by (simp add: extractTypeSchema_missing)
  with assms show ?thesis
    by (simp add: addRoute_def Let_def g0_def)
qed

lemma addRoute_reference_missing:
  assumes "findTypeAlias (project g) n = None" and "n \<in> set (typeReferences route)"
  shows "\<exists>e. fst (addRoute route g) = Inl e"
proof -
  define g0 where "g0 = (case map_of (paths g) (path route) of
                  None \<Rightarrow> g\<lparr>paths := AList.update (path route) [] (paths g)\<rparr>
                | Some item \<Rightarrow> g)"
  have p0: "project g0 = project g" by (simp add: g0_def split: option.splits)
  show ?thesis
  proof (cases "truthy (requestType route)")
    case None
    with assms have "n \<in> set (concat (map (\<lambda>r. case truthy (response_type r) of None \<Rightarrow> [] | Some ty \<Rightarrow> [ty]) (responses route)))"
      by (simp add: typeReferences_def)
    with assms p0 obtain e where "fst (forEachResponse route (responses route) [] g0) = Inl e"
      using forEachResponse_missing [of g0 n "responses route" route "[]"] by auto
    with None show ?thesis
      by (cases "forEachResponse route (responses route) [] g0")
         (simp add: addRoute_def Let_def g0_def [symmetric])
  next
    case (Some ty)
    obtain r1 g1 where e: "extractTypeSchema ty g0 = (r1, g1)" by (cases "extractTypeSchema ty g0")
    then have p: "project g1 = project g" using extractTypeSchema_project p0 by metis
    show ?thesis
    proof (cases r1)
      case (Inl err)
      with Some e show ?thesis by (simp add: addRoute_def Let_def g0_def [symmetric])
    next
      case (Inr s)
      have "ty \<noteq> n"
      proof
        assume "ty = n"
        with assms p0 e have "r1 = Inl (Error (notFoundMessage n))"
          by (simp add: extractTypeSchema_missing)
        with Inr show False by simp
      qed
      with assms Some have "n \<in> set (concat (map (\<lambda>r. case truthy (response_type r) of None \<Rightarrow> [] | Some ty \<Rightarrow> [ty]) (responses route)))"
        by (simp add: typeReferences_def)
      with assms p obtain err where "fst (forEachResponse route (responses route) [] g1) = Inl err"
        using forEachResponse_missing [of g1 n "responses route" route "[]"] by auto
      with Some e Inr show ?thesis
        by (cases "forEachResponse route (responses route) [] g1")
           (simp add: addRoute_def Let_def g0_def [symmetric])
    qed
  qed
qed

lemma extractTypeSchema_result:
  "fst (extractTypeSchema n g) =
     (case findTypeAlias (project g) n of
        None \<Rightarrow> Inl (Error (notFoundMessage n))
      | Some t \<Rightarrow>
          (case getSchemaForType t of
             Inl e \<Rightarrow> Inl e
           | Inr s \<Rightarrow>
               if isArray t then
                 (case getArrayElementType t of
                    None \<Rightarrow> Inl TypeError
                  | Some e \<Rightarrow>
                      (case getSchemaForType e of
                         Inl err \<Rightarrow> Inl err
                       | Inr items \<Rightarrow> Inr (array_of items)))
               else Inr s))"
  by (simp add: extractTypeSchema_def Let_def split: option.splits sum.splits)

section \<open>A missing type\<close>

text \<open>
  Claim C2.  When no source file of the project declares an alias \<open>n\<close>,
  \<^verbatim>\<open>extractTypeSchema\<close> throws the error whose message is
  \<^verbatim>\<open>Type 'n' not found in any source files\<close> and leaves the generator as it was.  The
  error reaches the caller: \<^verbatim>\<open>addRoute\<close> fails with it when \<open>n\<close> is the route's
  request type, and \<^verbatim>\<open>addRoute\<close> and \<^verbatim>\<open>addRoutes\<close> fail, rather than skip the
  reference, whenever the route refers to \<open>n\<close> at all.
\<close>

theorem missing_type_is_raised:
  assumes "\<forall>sf\<in>set (project g). \<forall>t. sf n \<noteq> TypeAlias t"
  shows "extractTypeSchema n g = (Inl (Error (notFoundMessage n)), g)
       \<and> (truthy (requestType route) = Some n \<longrightarrow>
            fst (addRoute route g) = Inl (Error (notFoundMessage n)))
       \<and> (n \<in> set (typeReferences route) \<longrightarrow>
            (\<exists>e. fst (addRoute route g) = Inl e)
            \<and> (\<exists>e. fst (addRoutes (route # routes) g) = Inl e))"
proof -
  from assms have none: "findTypeAlias (project g) n = None"
    by (rule findTypeAlias_none)
  have "\<exists>e. fst (addRoutes (route # routes) g) = Inl e"
    if "\<exists>e. fst (addRoute route g) = Inl e"
    using that by (cases "addRoute route g") auto
  with none show ?thesis
    using extractTypeSchema_missing addRoute_request_missing addRoute_reference_missing
    by blast
qed

theorem missing_type_is_raised_witness:
  "truthy (requestType ghostRoute) = Some ''Ghost''
   \<and> ''Ghost'' \<in> set (typeReferences ghostRoute)
   \<and> extractTypeSchema ''Ghost'' (newGenerator [typesSource])
       = (Inl (Error (notFoundMessage ''Ghost'')), newGenerator [typesSource])
   \<and> fst (addRoute ghostRoute (newGenerator [typesSource]))
       = Inl (Error (notFoundMessage ''Ghost''))
   \<and> (\<exists>e. fst (addRoutes [ghostRoute] (newGenerator [typesSource])) = Inl e)"
proof -
  have h: "\<forall>sf\<in>set (project (newGenerator [typesSource])). \<forall>t. sf ''Ghost'' \<noteq> TypeAlias t"
    by (simp add: newGenerator_def typesSource_def sourceOf_def)
  have r: "truthy (requestType ghostRoute) = Some ''Ghost''"
    "''Ghost'' \<in> set (typeReferences ghostRoute)"
    by (simp_all add: ghostRoute_def typeReferences_def)
  from missing_type_is_raised [OF h, of ghostRoute "[]"] h r show ?thesis
    by simp
qed

section \<open>Resolution order\<close>

text \<open>
  Claim C3.  The sources are scanned in their order and the first source that declares
  the name decides: with no declaration of \<open>n\<close> in the sources \<open>pre\<close> before
  \<open>sf\<close>, resolution answers the type \<open>sf\<close> declares, and the schema returned is the
  one obtained from \<open>sf\<close> alone, whatever the later sources \<open>post\<close> declare.
\<close>

theorem first_match_wins:
  assumes "\<forall>p\<in>set pre. \<forall>t. p n \<noteq> TypeAlias t" and "sf n = TypeAlias tA"
  shows "findTypeAlias (pre @ sf # post) n = Some tA
       \<and> fst (extractTypeSchema n (g\<lparr>project := pre @ sf # post\<rparr>))
           = fst (extractTypeSchema n (g\<lparr>project := [sf]\<rparr>))"
proof -
  from assms have "findTypeAlias (pre @ sf # post) n = Some tA"
    by (simp add: findTypeAlias_skip)
  moreover from assms have "findTypeAlias [sf] n = Some tA"
    by simp
  ultimately show ?thesis
    by (simp add: extractTypeSchema_result)
qed

theorem first_match_wins_witness:
  "sourceA ''T'' = TypeAlias itemType
   \<and> sourceB ''T'' = TypeAlias numberType
   \<and> findTypeAlias ([] @ sourceA # [sourceB]) ''T'' = Some itemType
   \<and> fst (extractTypeSchema ''T'' ((newGenerator [])\<lparr>project := [] @ sourceA # [sourceB]\<rparr>))
       = Inr itemSchema"
proof -
  have h: "\<forall>p\<in>set []. \<forall>t. p ''T'' \<noteq> TypeAlias t" "sourceA ''T'' = TypeAlias itemType"
    by (simp_all add: sourceA_def sourceOf_def)
  have b: "sourceB ''T'' = TypeAlias numberType"
    by (simp add: sourceB_def sourceOf_def)
  have "fst (extractTypeSchema ''T'' ((newGenerator [])\<lparr>project := [sourceA]\<rparr>)) = Inr itemSchema"
    by code_simp
  with first_match_wins [where pre = "[]" and n = "''T''" and sf = sourceA and tA = itemType
         and post = "[sourceB]" and g = "newGenerator []"] h b
  show ?thesis
    by simp
qed

section \<open>Lookup failures\<close>

text \<open>
  Claim C4.  A source whose lookup throws counts as a source without the name: taking it
  out of the project changes neither the resolved type nor the result of
  \<^verbatim>\<open>extractTypeSchema\<close>, so its exception does not reach the caller, and a later source
  that declares the name is still found.
\<close>

theorem lookup_failure_is_swallowed:
  assumes "sf n = Throws"
  shows "findTypeAlias (pre @ sf # post) n = findTypeAlias (pre @ post) n
       \<and> fst (extractTypeSchema n (g\<lparr>project := pre @ sf # post\<rparr>))
           = fst (extractTypeSchema n (g\<lparr>project := pre @ post\<rparr>))
       \<and> (later n = TypeAlias t \<longrightarrow> findTypeAlias (sf # later # rest) n = Some t)"
proof -
  have "findTypeAlias (pre @ sf # post) n = findTypeAlias (pre @ post) n"
    using assms by (induction pre) (auto split: alias_lookup.splits)
  with assms show ?thesis
    by (simp add: extractTypeSchema_result)
qed

theorem lookup_failure_is_swallowed_witness:
  "brokenSource ''List'' = Throws \<and> typesSource ''List'' = TypeAlias listType
   \<and> findTypeAlias (brokenSource # typesSource # []) ''List'' = Some listType
   \<and> fst (extractTypeSchema ''List'' ((newGenerator [])\<lparr>project := [] @ brokenSource # [typesSource]\<rparr>))
       = Inr (array_of itemSchema)"
proof -
  have h: "brokenSource ''List'' = Throws"
    by (simp add: brokenSource_def)
  have l: "typesSource ''List'' = TypeAlias listType"
    by (simp add: typesSource_def sourceOf_def)
  have "fst (extractTypeSchema ''List'' ((newGenerator [])\<lparr>project := [] @ [typesSource]\<rparr>))
          = Inr (array_of itemSchema)"
    by code_simp
  with lookup_failure_is_swallowed [where sf = brokenSource and n = "''List''" and pre = "[]"
         and post = "[typesSource]" and g = "newGenerator []" and later = typesSource
         and t = listType and rest = "[]"] h l
  show ?thesis
    by simp
qed

section \<open>What a resolved name returns and registers\<close>

lemma extractTypeSchema_infers:
  assumes "findTypeAlias (project g) n = Some t"
  shows "fst (extractTypeSchema n g) = getSchemaForType t"
proof (cases "isArray t")
  case True
  then have "getSchemaForType t =
      (case getArrayElementType t of
         None \<Rightarrow> Inl TypeError
       | Some e \<Rightarrow> (case getSchemaForType e of Inl err \<Rightarrow> Inl err | Inr items \<Rightarrow> Inr (array_of items)))"
    by (subst getSchemaForType.simps) simp
  with True assms show ?thesis
    by (simp add: extractTypeSchema_result split: option.splits sum.splits)
next
  case False
  with assms show ?thesis
    by (simp add: extractTypeSchema_result split: sum.splits)
qed

lemma extractTypeSchema_state:
  assumes "findTypeAlias (project g) n = Some t"
  shows "snd (extractTypeSchema n g) =
           (case getSchemaForType t of Inl e \<Rightarrow> g | Inr s \<Rightarrow> registerSchema n s g)"
  using assms
  by (simp add: extractTypeSchema_def Let_def split: option.splits sum.splits)

lemma registerSchema_twice:
  "registerSchema n s (registerSchema n s g) = registerSchema n s g"
  by (cases "schemas g") (simp_all add: registerSchema_def)

lemma registerSchema_entry:
  "schemas g = Some reg \<Longrightarrow> registryEntry (registerSchema n s g) n = Some s"
  by (simp add: registerSchema_def registryEntry_def update_conv')

section \<open>Arrays of objects in the registry\<close>

text \<open>
  Claim C1, as stated, at \<^verbatim>\<open>List = Item[]\<close> with
  \<^verbatim>\<open>Item = {id: number, name: string}\<close>: the caller receives the array wrapper, and
  the registry entry \<open>List\<close> is that array wrapper too, not the object schema of the
  element.
\<close>

theorem registry_holds_element_counterexample:
  "findTypeAlias (project (newGenerator [typesSource])) ''List'' = Some listType
   \<and> isArray listType \<and> getArrayElementType listType = Some itemType
   \<and> getSchemaForType itemType = Inr itemSchema
   \<and> fst (extractTypeSchema ''List'' (newGenerator [typesSource])) = Inr (array_of itemSchema)
   \<and> registryEntry (snd (extractTypeSchema ''List'' (newGenerator [typesSource]))) ''List''
       = Some (array_of itemSchema)
   \<and> registryEntry (snd (extractTypeSchema ''List'' (newGenerator [typesSource]))) ''List''
       \<noteq> Some itemSchema"
  by code_simp

text \<open>
  Claim C1, amended.  For a type name that resolves to an array whose element is an
  object with the property schemas \<open>props\<close>, \<^verbatim>\<open>extractTypeSchema\<close> returns
  \<^verbatim>\<open>{type: 'array', items: {type: 'object', properties: props}}\<close>, and the entry
  written into \<^verbatim>\<open>spec.components.schemas\<close> under that name is the same array wrapper.
\<close>

theorem array_registered_as_returned:
  assumes "findTypeAlias (project g) typeName = Some t"
    and "isArray t" and "getArrayElementType t = Some e"
    and "\<not> isArray e" and "\<not> isEnum e" and "isObject e"
    and "forEachProperty (getProperties e) [] = Inr props"
    and "schemas g = Some reg"
  shows "fst (extractTypeSchema typeName g) = Inr (array_of (object_of props))
       \<and> registryEntry (snd (extractTypeSchema typeName g)) typeName
           = Some (array_of (object_of props))"
proof -
  from assms have e: "getSchemaForType e = Inr (object_of props)"
    by (simp add: getSchemaForType_object)
  with assms have t: "getSchemaForType t = Inr (array_of (object_of props))"
    by (subst getSchemaForType.simps) simp
  with assms show ?thesis
    by (simp add: extractTypeSchema_infers extractTypeSchema_state registerSchema_entry)
qed

theorem array_registered_as_returned_witness:
  "fst (extractTypeSchema ''List'' (newGenerator [typesSource])) = Inr (array_of itemSchema)
   \<and> registryEntry (snd (extractTypeSchema ''List'' (newGenerator [typesSource]))) ''List''
       = Some (array_of itemSchema)"
proof -
  have "findTypeAlias (project (newGenerator [typesSource])) ''List'' = Some listType"
    "isArray listType" "getArrayElementType listType = Some itemType"
    "\<not> isArray itemType" "\<not> isEnum itemType" "isObject itemType"
    "forEachProperty (getProperties itemType) []
       = Inr [(''id'', type_only ''number''), (''name'', type_only ''string'')]"
    "schemas (newGenerator [typesSource]) = Some []"
    by code_simp+
  from array_registered_as_returned [OF this] show ?thesis
    by (simp add: itemSchema_def)
qed

section \<open>Inferring twice\<close>

text \<open>
  Claim C9.  Inference reads nothing but the handle: any call of
  \<^verbatim>\<open>extractTypeSchema\<close> whose name resolves to the handle \<open>t\<close> returns the value of
  \<^verbatim>\<open>getSchemaForType\<close> on \<open>t\<close>, whatever the generator holds at that moment (for an
  array this includes the second inference of the element type, made after the registry
  was written).  Hence a second call right after the first, the sources unchanged,
  returns the identical fragment and leaves the generator as the first call left it.
\<close>

theorem inference_is_repeatable:
  assumes "findTypeAlias (project g) n = Some t"
  shows "fst (extractTypeSchema n g) = getSchemaForType t
       \<and> extractTypeSchema n (snd (extractTypeSchema n g)) = extractTypeSchema n g"
proof -
  obtain r g' where run: "extractTypeSchema n g = (r, g')"
    by (cases "extractTypeSchema n g")
  then have "project g' = project g"
    by (rule extractTypeSchema_project)
  with assms have again: "findTypeAlias (project g') n = Some t"
    by simp
  from assms run have r: "r = getSchemaForType t"
    using extractTypeSchema_infers [of g n t] by simp
  from assms run have g': "g' = (case getSchemaForType t of Inl e \<Rightarrow> g | Inr s \<Rightarrow> registerSchema n s g)"
    using extractTypeSchema_state [of g n t] by simp
  have "fst (extractTypeSchema n g') = r"
    using again r by (simp add: extractTypeSchema_infers)
  moreover have "snd (extractTypeSchema n g') = g'"
    using again g' by (simp add: extractTypeSchema_state registerSchema_twice split: sum.splits)
  ultimately have "extractTypeSchema n g' = (r, g')"
    by (simp add: prod_eq_iff)
  with run r show ?thesis
    by simp
qed

theorem inference_is_repeatable_witness:
  "fst (extractTypeSchema ''List'' (newGenerator [typesSource])) = getSchemaForType listType
   \<and> getSchemaForType listType = Inr (array_of itemSchema)
   \<and> fst (extractTypeSchema ''List'' (snd (extractTypeSchema ''List'' (newGenerator [typesSource]))))
       = Inr (array_of itemSchema)"
proof -
  have h: "findTypeAlias (project (newGenerator [typesSource])) ''List'' = Some listType"
    by code_simp
  have s: "getSchemaForType listType = Inr (array_of itemSchema)"
    by code_simp
  from inference_is_repeatable [OF h] s show ?thesis
    by simp
qed

section \<open>Shallow inference of properties\<close>

text \<open>
  Claim C6.  Let \<open>t\<close> be an object type inferred as a whole (at the top level or as
  the element of an array) and \<open>p\<close> one of its properties, of type \<open>propType\<close>.
  If \<open>propType\<close> is an enum, the property's fragment is the full enum fragment.  If
  \<open>propType\<close> is an object, and neither an enum, an array nor a primitive, the
  property's fragment is the bare \<^verbatim>\<open>{type: 'object'}\<close>, without a \<open>properties\<close> key,
  whereas the same \<open>propType\<close> inferred as a whole gets
  \<^verbatim>\<open>{type: 'object', properties: ...}\<close>.
\<close>

theorem shallow_property_inference:
  assumes "\<not> isArray t" and "\<not> isEnum t" and "isObject t" and "wellFormed t"
    and "distinct (map getName (getProperties t))"
    and "p \<in> set (getProperties t)" and "getTypeAtLocation p = Some propType"
  shows "\<exists>props. getSchemaForType t = Inr (object_of props)
           \<and> (isEnum propType \<longrightarrow>
                map_of props (getName p) =
                  Some (Schema (Some ''string'') None
                          (Some (map getLiteralValue (getUnionTypes propType)))
                          None None None None None))
           \<and> (\<not> isEnum propType \<and> isObject propType \<and> \<not> isArray propType
                \<and> \<not> isPrimitive propType \<longrightarrow>
                map_of props (getName p) =
                  Some (Schema (Some ''object'') None None None None None None None)
                \<and> (wellFormed propType \<longrightarrow>
                     (\<exists>inner. getSchemaForType propType =
                        Inr (Schema (Some ''object'') None None (Some inner)
                               None None None None))))"
proof -
  from assms(4) have "list_all (\<lambda>p. getTypeAtLocation p \<noteq> None) (getProperties t)"
    by (subst (asm) wellFormed.simps) simp
  then obtain props where props: "forEachProperty (getProperties t) [] = Inr props"
    using forEachProperty_returns by blast
  with assms have whole: "getSchemaForType t = Inr (object_of props)"
    by (simp add: getSchemaForType_object)
  from props assms(5-7) have entry: "map_of props (getName p) = Some (propSchema propType)"
    by (rule forEachProperty_entry)
  have enum: "map_of props (getName p) =
                Some (Schema (Some ''string'') None
                        (Some (map getLiteralValue (getUnionTypes propType)))
                        None None None None None)"
    if "isEnum propType"
    using that entry by (simp add: propSchema_def enum_of_def)
  have shallow: "map_of props (getName p) =
                   Some (Schema (Some ''object'') None None None None None None None)"
    if "\<not> isEnum propType" "isObject propType" "\<not> isArray propType" "\<not> isPrimitive propType"
    using that entry
    by (simp add: propSchema_def getTypeString_def isPrimitive_def type_only_def)
  have deep: "\<exists>inner. getSchemaForType propType =
                 Inr (Schema (Some ''object'') None None (Some inner) None None None None)"
    if "\<not> isEnum propType" "isObject propType" "\<not> isArray propType" "wellFormed propType"
  proof -
    from that(4) have "list_all (\<lambda>p. getTypeAtLocation p \<noteq> None) (getProperties propType)"
      by (subst (asm) wellFormed.simps) simp
    then obtain inner where "forEachProperty (getProperties propType) [] = Inr inner"
      using forEachProperty_returns by blast
    with that have "getSchemaForType propType = Inr (object_of inner)"
      by (simp add: getSchemaForType_object)
    then show ?thesis
      by (auto simp: object_of_def)
  qed
  from whole enum shallow deep show ?thesis
    by blast
qed

theorem shallow_property_inference_witness:
  "\<exists>props. getSchemaForType accountType = Inr (object_of props)
     \<and> map_of props ''owner'' = Some (Schema (Some ''object'') None None None None None None None)
     \<and> (\<exists>inner. getSchemaForType itemType =
           Inr (Schema (Some ''object'') None None (Some inner) None None None None))"
proof -
  have h: "\<not> isArray accountType" "\<not> isEnum accountType" "isObject accountType"
    "wellFormed accountType" "distinct (map getName (getProperties accountType))"
    "Symbol ''owner'' (Some itemType) \<in> set (getProperties accountType)"
    "getTypeAtLocation (Symbol ''owner'' (Some itemType)) = Some itemType"
    by code_simp+
  have i: "\<not> isEnum itemType" "isObject itemType" "\<not> isArray itemType"
    "\<not> isPrimitive itemType" "wellFormed itemType"
    by code_simp+
  from shallow_property_inference [OF h] i show ?thesis
    by simp
qed

section \<open>Facts about placeholders and parameters\<close>

text \<open>
  \<open>extractPathParameters_placeholder\<close> says what the regular expression finds: the
  leftmost \<^verbatim>\<open>{name}\<close> with a non-empty name free of closing braces, and then what it
  finds behind it.  \<open>extractPathParameters_template\<close> follows: on the path string of a
  proper template it finds the names of the placeholders, all of them and in order.
\<close>

lemma pathMatch_skip:
  "CHR ''{'' \<notin> set pre \<Longrightarrow> pathMatch (pre @ s) = pathMatch s"
  by (induction pre) (auto simp: pathMatch.simps(2))

lemma pathMatch_placeholder:
  assumes "nm \<noteq> []" and "CHR ''}'' \<notin> set nm"
  shows "pathMatch (CHR ''{'' # nm @ CHR ''}'' # post)
           = (CHR ''{'' # nm @ [CHR ''}'']) # pathMatch post"
proof -
  from assms(2) have "takeWhile (\<lambda>x. x \<noteq> CHR ''}'') (nm @ CHR ''}'' # post) = nm"
    by (induction nm) auto
  moreover from assms(2) have
    "dropWhile (\<lambda>x. x \<noteq> CHR ''}'') (nm @ CHR ''}'' # post) = CHR ''}'' # post"
    by (induction nm) auto
  ultimately show ?thesis
    using assms(1) by (simp add: pathMatch.simps(2))
qed

lemma extractPathParameters_placeholder:
  assumes "CHR ''{'' \<notin> set pre" and "nm \<noteq> []" and "CHR ''}'' \<notin> set nm"
  shows "extractPathParameters (pre @ CHR ''{'' # nm @ CHR ''}'' # post)
           = nm # extractPathParameters post"
proof -
  from assms have "pathMatch (pre @ CHR ''{'' # nm @ CHR ''}'' # post)
                     = (CHR ''{'' # nm @ [CHR ''}'']) # pathMatch post"
    by (simp add: pathMatch_skip pathMatch_placeholder)
  then show ?thesis
    by (simp add: extractPathParameters_def slice_1_m1_def Let_def)
qed

lemma routeParameters_path:
  "filter (\<lambda>p. location p = ''path'') (routeParameters route)
     = map (pathParameter route) (extractPathParameters (path route))"
proof -
  have "filter (\<lambda>p. location p = ''path'') (map (pathParameter route) ns)
          = map (pathParameter route) ns" for ns
    by (induction ns) (simp_all add: pathParameter_def)
  moreover have "filter (\<lambda>p. location p = ''path'') (map queryParameter qs) = []" for qs
    by (induction qs) (simp_all add: queryParameter_def)
  moreover have "filter (\<lambda>p. location p = ''path'') (map headerParameter hs) = []" for hs
    by (induction hs) (simp_all add: headerParameter_def)
  ultimately show ?thesis
    by (simp add: routeParameters_def split: option.splits)
qed

lemma addRoute_operation:
  assumes "fst (addRoute route g) = Inr ()"
  shows "\<exists>op. operationAt (snd (addRoute route g)) (path route) (route_method route) = Some op
           \<and> op_parameters op
               = (if routeParameters route \<noteq> [] then Some (routeParameters route) else None)"
proof -
  define g0 where "g0 = (case map_of (paths g) (path route) of
                  None \<Rightarrow> g\<lparr>paths := AList.update (path route) [] (paths g)\<rparr>
                | Some item \<Rightarrow> g)"
  define req where "req = (case truthy (requestType route) of
                 None \<Rightarrow> (Inr None, g0)
               | Some ty \<Rightarrow>
                   (case extractTypeSchema ty g0 of
                      (Inl e, g1) \<Rightarrow> (Inl e, g1)
                    | (Inr s, g1) \<Rightarrow> (Inr (Some s), g1)))"
  obtain r1 g1 where req1: "req = (r1, g1)"
    by (cases req)
  have unfolded: "addRoute route g =
    (case req of
       (Inl e, g1) \<Rightarrow> (Inl e, g1)
     | (Inr body, g1) \<Rightarrow>
         (case forEachResponse route (responses route) [] g1 of
            (Inl e, g2) \<Rightarrow> (Inl e, g2)
          | (Inr rs, g2) \<Rightarrow>
              (Inr (),
               g2\<lparr>paths :=
                    AList.update (path route)
                      (AList.update (route_method route)
                         (\<lparr>op_description =
                             (case truthy (description route) of None \<Rightarrow> [] | Some d \<Rightarrow> d),
                           op_responses = [],
                           op_parameters =
                             (if routeParameters route \<noteq> [] then Some (routeParameters route)
                              else None),
                           op_security =
                             map_option (map (\<lambda>scheme. (scheme, []))) (security route),
                           op_requestBody = None\<rparr>
                          \<lparr>op_requestBody := body, op_responses := rs\<rparr>)
                         (case map_of (paths g) (path route) of None \<Rightarrow> [] | Some item \<Rightarrow> item))
                      (paths g2)\<rparr>)))"
    by (simp only: addRoute_def Let_def g0_def req_def)
  show ?thesis
  proof (cases r1)
    case (Inl e)
    with assms req1 unfolded show ?thesis by simp
  next
    case body: (Inr body)
    obtain r2 g2 where resp: "forEachResponse route (responses route) [] g1 = (r2, g2)"
      by (cases "forEachResponse route (responses route) [] g1")
    show ?thesis
    proof (cases r2)
      case (Inl e)
      with assms req1 unfolded body resp show ?thesis by simp
    next
      case (Inr rs)
      with req1 unfolded body resp show ?thesis
        by (simp add: operationAt_def update_conv')
    qed
  qed
qed

lemma extractPathParameters_matches:
  "extractPathParameters p = map slice_1_m1 (pathMatch p)"
  by (simp add: extractPathParameters_def Let_def)

lemma extractPathParameters_template:
  "templateOk segs \<Longrightarrow> extractPathParameters (render segs) = placeholderNames segs"
proof (induction segs rule: render.induct)
  case 1
  show ?case
    by (simp add: extractPathParameters_matches pathMatch.simps(1))
next
  case (2 s segs)
  then have "CHR ''{'' \<notin> set s" and "templateOk segs"
    by (simp_all add: templateOk_def)
  with "2.IH" show ?case
    by (simp add: extractPathParameters_matches pathMatch_skip)
next
  case (3 n segs)
  then have "n \<noteq> []" and "CHR ''}'' \<notin> set n" and "templateOk segs"
    by (simp_all add: templateOk_def)
  with "3.IH" show ?case
    by (simp add: extractPathParameters_matches pathMatch_placeholder slice_1_m1_def)
qed

section \<open>Path parameters\<close>

text \<open>
  Claim C10.  When \<^verbatim>\<open>addRoute\<close> returns, the operation stored under the route's path
  and method has, for every placeholder \<^verbatim>\<open>{name}\<close> of the path string, a parameter
  with that name, \<^verbatim>\<open>in: 'path'\<close>, \<^verbatim>\<open>required: true\<close> and the schema
  \<^verbatim>\<open>{type: 'string'}\<close>, and the parameters with \<^verbatim>\<open>in: 'path'\<close> are named by exactly
  the placeholders, in their order; only the description depends on the route.
  Whatever the path string, every parameter of the operation with \<^verbatim>\<open>in: 'path'\<close> is
  required and typed string.
\<close>

theorem placeholders_are_required_strings:
  assumes "fst (addRoute route g) = Inr ()"
  shows "\<exists>op. operationAt (snd (addRoute route g)) (path route) (route_method route) = Some op
           \<and> (templateOk segs \<and> path route = render segs \<longrightarrow>
                (\<forall>n\<in>set (placeholderNames segs).
                   \<exists>ps d. op_parameters op = Some ps
                     \<and> \<lparr>name = n, location = ''path'', required = True,
                         param_schema = Schema (Some ''string'') None None None None None None None,
                         param_description = Some d\<rparr> \<in> set ps)
                \<and> (\<forall>ps. op_parameters op = Some ps \<longrightarrow>
                      map name (filter (\<lambda>p. location p = ''path'') ps) = placeholderNames segs))
           \<and> (\<forall>ps. op_parameters op = Some ps \<longrightarrow>
                (\<forall>p\<in>set ps. location p = ''path'' \<longrightarrow>
                   required p
                   \<and> param_schema p = Schema (Some ''string'') None None None None None None None))"
proof -
  from assms obtain op where
    at: "operationAt (snd (addRoute route g)) (path route) (route_method route) = Some op"
    and ps: "op_parameters op
               = (if routeParameters route \<noteq> [] then Some (routeParameters route) else None)"
    using addRoute_operation by blast
  have emitted: "\<exists>ps d. op_parameters op = Some ps
                  \<and> \<lparr>name = n, location = ''path'', required = True,
                      param_schema = Schema (Some ''string'') None None None None None None None,
                      param_description = Some d\<rparr> \<in> set ps"
    if ok: "templateOk segs" "path route = render segs" and n: "n \<in> set (placeholderNames segs)"
    for n
  proof -
    from ok n have "n \<in> set (extractPathParameters (path route))"
      by (simp add: extractPathParameters_template)
    then have "pathParameter route n \<in> set (routeParameters route)"
      by (simp add: routeParameters_def)
    moreover have "\<exists>d. pathParameter route n =
        \<lparr>name = n, location = ''path'', required = True,
         param_schema = Schema (Some ''string'') None None None None None None None,
         param_description = Some d\<rparr>"
      by (simp add: pathParameter_def type_only_def split: option.splits)
    ultimately show ?thesis
      using ps by auto
  qed
  have names: "map name (filter (\<lambda>p. location p = ''path'') ps') = placeholderNames segs"
    if ok: "templateOk segs" "path route = render segs" and "op_parameters op = Some ps'"
    for ps'
  proof -
    from that(3) ps have "ps' = routeParameters route"
      by (auto split: if_splits)
    moreover have "map name (map (pathParameter route) ns) = ns" for ns
      by (induction ns) (simp_all add: pathParameter_def)
    ultimately show ?thesis
      using ok by (simp add: routeParameters_path extractPathParameters_template)
  qed
  have only: "required p
                \<and> param_schema p = Schema (Some ''string'') None None None None None None None"
    if "op_parameters op = Some ps'" "p \<in> set ps'" "location p = ''path''" for ps' p
  proof -
    from that ps have "p \<in> set (filter (\<lambda>p. location p = ''path'') (routeParameters route))"
      by (auto split: if_splits)
    then obtain n where "p = pathParameter route n"
      by (auto simp: routeParameters_path)
    then show ?thesis
      by (simp add: pathParameter_def type_only_def)
  qed
  from at emitted names only show ?thesis
    by blast
qed

theorem placeholders_are_required_strings_witness:
  "fst (addRoute postRoute (newGenerator [typesSource])) = Inr ()
   \<and> templateOk [Literal ''/users/'', Placeholder ''userId'', Literal ''/posts/'',
                  Placeholder ''postId'']
   \<and> path postRoute = render [Literal ''/users/'', Placeholder ''userId'', Literal ''/posts/'',
                               Placeholder ''postId'']
   \<and> (\<exists>op ps d. operationAt (snd (addRoute postRoute (newGenerator [typesSource])))
                   ''/users/{userId}/posts/{postId}'' Get = Some op
         \<and> op_parameters op = Some ps
         \<and> map name (filter (\<lambda>p. location p = ''path'') ps) = [''userId'', ''postId'']
         \<and> \<lparr>name = ''postId'', location = ''path'', required = True,
             param_schema = Schema (Some ''string'') None None None None None None None,
             param_description = Some d\<rparr> \<in> set ps)"
proof -
  let ?segs = "[Literal ''/users/'', Placeholder ''userId'', Literal ''/posts/'',
                Placeholder ''postId'']"
  have h: "fst (addRoute postRoute (newGenerator [typesSource])) = Inr ()"
    by code_simp
  have t: "templateOk ?segs" "path postRoute = render ?segs"
    by code_simp+
  have r: "path postRoute = ''/users/{userId}/posts/{postId}''" "route_method postRoute = Get"
    by (simp_all add: postRoute_def)
  have n: "placeholderNames ?segs = [''userId'', ''postId'']"
    by simp
  from placeholders_are_required_strings [OF h, of ?segs] t obtain op where
    op: "operationAt (snd (addRoute postRoute (newGenerator [typesSource])))
       (path postRoute) (route_method postRoute) = Some op"
    and em: "\<forall>n\<in>set (placeholderNames ?segs).
       \<exists>ps d. op_parameters op = Some ps
         \<and> \<lparr>name = n, location = ''path'', required = True,
             param_schema = Schema (Some ''string'') None None None None None None None,
             param_description = Some d\<rparr> \<in> set ps"
    and nm: "\<forall>ps. op_parameters op = Some ps \<longrightarrow>
               map name (filter (\<lambda>p. location p = ''path'') ps) = placeholderNames ?segs"
    by blast
  from em n obtain ps d where
    "op_parameters op = Some ps"
    "\<lparr>name = ''postId'', location = ''path'', required = True,
      param_schema = Schema (Some ''string'') None None None None None None None,
      param_description = Some d\<rparr> \<in> set ps"
    by auto
  with op nm n r h t show ?thesis
    by (metis)
qed

end
